theory Spec2Isabelle
  imports Complex_Main "HOL-Library.Sublist"
begin

section \<open>Python values and exceptions\<close>

text \<open>
  The client (\<^verbatim>\<open>claude_powerbook.py\<close>) and the diagnostics script (\<^verbatim>\<open>test_setup.py\<close>)
  work on the values that \<^verbatim>\<open>json.loads\<close> produces: \<^verbatim>\<open>None\<close>, booleans, integers,
  floats, strings, lists and dictionaries. A float is the rational number it denotes, or
  one of the three non-finite values that \<^verbatim>\<open>json.loads\<close> accepts. A dictionary is the list
  of its items in insertion order. A \<^verbatim>\<open>str\<close> and a \<^verbatim>\<open>bytes\<close> object are both lists of
  8-bit characters.
\<close>

datatype pyfloat = Finite rat | PosInf | NegInf | NaN

datatype pyval =
    PNone
  | PBool bool
  | PInt int
  | PFloat pyfloat
  | PStr string
  | PList "pyval list"
  | PDict "(string \<times> pyval) list"

text \<open>
  The exception classes that the handlers of the two scripts tell apart, and those that
  the operations on values raise. \<^verbatim>\<open>IOError\<close> is an alias of \<^verbatim>\<open>OSError\<close>;
  \<^verbatim>\<open>URLError\<close> is a subclass of \<^verbatim>\<open>OSError\<close> and \<^verbatim>\<open>HTTPError\<close> one of \<^verbatim>\<open>URLError\<close>;
  \<^verbatim>\<open>UnicodeDecodeError\<close> and \<^verbatim>\<open>JSONDecodeError\<close> are subclasses of \<^verbatim>\<open>ValueError\<close>;
  \<^verbatim>\<open>KeyboardInterrupt\<close> and \<^verbatim>\<open>SystemExit\<close> are not subclasses of \<^verbatim>\<open>Exception\<close>.
\<close>

datatype exn_class =
    OSError | URLError | ValueError | UnicodeDecodeError | JSONDecodeError
  | TypeError | KeyError | IndexError | AttributeError | ImportError
  | EOFError | RuntimeError | KeyboardInterrupt

datatype exn =
    Exc exn_class string
      \<comment> \<open>class and message; for \<open>URLError\<close> the message is \<^verbatim>\<open>str(e.reason)\<close>\<close>
  | HTTPError int string "(exn_class \<times> string) + string"
      \<comment> \<open>\<^verbatim>\<open>e.code\<close>, \<^verbatim>\<open>e.msg\<close>, and what \<^verbatim>\<open>e.read()\<close> does: raise, or return the body\<close>
  | SystemExit int

fun is_OSError :: "exn \<Rightarrow> bool" where
  "is_OSError (Exc c m) = (c = OSError \<or> c = URLError)"
| "is_OSError (HTTPError code m body) = True"
| "is_OSError (SystemExit n) = False"

fun is_Exception :: "exn \<Rightarrow> bool" where
  "is_Exception (Exc c m) = (c \<noteq> KeyboardInterrupt)"
| "is_Exception (HTTPError code m body) = True"
| "is_Exception (SystemExit n) = False"

fun is_class :: "exn_class \<Rightarrow> exn \<Rightarrow> bool" where
  "is_class k (Exc c m) = (c = k)"
| "is_class k (HTTPError code m body) = False"
| "is_class k (SystemExit n) = False"

subsection \<open>Decimal rendering of integers\<close>

definition digit_char :: "nat \<Rightarrow> char" where
  "digit_char n = ''0123456789'' ! (n mod 10)"

fun str_nat :: "nat \<Rightarrow> string" where
  "str_nat n = (if n < 10 then [digit_char n] else str_nat (n div 10) @ [digit_char n])"

definition str_int :: "int \<Rightarrow> string" where
  "str_int i = (if i < 0 then CHR ''-'' # str_nat (nat (- i)) else str_nat (nat i))"

text \<open>\<^verbatim>\<open>str(e)\<close> of an exception.\<close>

fun exn_str :: "exn \<Rightarrow> string" where
  "exn_str (Exc c m) = (if c = URLError then ''<urlopen error '' @ m @ ''>'' else m)"
| "exn_str (HTTPError code m body) = ''HTTP Error '' @ str_int code @ '': '' @ m"
| "exn_str (SystemExit n) = str_int n"

subsection \<open>Rendering of a bytes object\<close>

text \<open>
  An f-string renders a \<^verbatim>\<open>bytes\<close> object as its literal: \<^verbatim>\<open>b'...'\<close>, in double quotes
  when the bytes hold a single quote and no double quote; the quote character and the
  backslash are escaped with a backslash, tab, newline and carriage return are written
  \<^verbatim>\<open>\t\<close>, \<^verbatim>\<open>\n\<close>, \<^verbatim>\<open>\r\<close>, and every other byte below 0x20 or above 0x7e is written
  \<^verbatim>\<open>\xhh\<close>.
\<close>

definition hex_digit :: "nat \<Rightarrow> char" where
  "hex_digit n = ''0123456789abcdef'' ! (n mod 16)"

definition bytes_quote :: "string \<Rightarrow> char" where
  "bytes_quote bs =
     (if CHR 0x27 \<in> set bs \<and> CHR 0x22 \<notin> set bs then CHR 0x22 else CHR 0x27)"

definition byte_repr :: "char \<Rightarrow> char \<Rightarrow> string" where
  "byte_repr q c =
     (if c = q \<or> c = CHR 0x5C then [CHR 0x5C, c]
      else if c = CHR 0x09 then [CHR 0x5C, CHR ''t'']
      else if c = CHR 0x0A then [CHR 0x5C, CHR ''n'']
      else if c = CHR 0x0D then [CHR 0x5C, CHR ''r'']
      else if of_char c < (32::nat) \<or> of_char c \<ge> (127::nat)
        then [CHR 0x5C, CHR ''x'', hex_digit (of_char c div 16), hex_digit (of_char c mod 16)]
      else [c])"

definition bytes_repr :: "string \<Rightarrow> string" where
  "bytes_repr bs =
     (let q = bytes_quote bs in CHR ''b'' # q # concat (map (byte_repr q) bs) @ [q])"

subsection \<open>Operations on values\<close>

fun py_number :: "pyval \<Rightarrow> pyfloat option" where
  "py_number (PBool b) = Some (Finite (if b then 1 else 0))"
| "py_number (PInt i) = Some (Finite (of_int i))"
| "py_number (PFloat f) = Some f"
| "py_number v = None"

fun float_eq :: "pyfloat \<Rightarrow> pyfloat \<Rightarrow> bool" where
  "float_eq (Finite a) (Finite b) = (a = b)"
| "float_eq PosInf PosInf = True"
| "float_eq NegInf NegInf = True"
| "float_eq f g = False"

text \<open>
  \<^verbatim>\<open>x == y\<close>: numbers (booleans among them) compare by value, strings and lists
  elementwise, dictionaries by their items whatever the order, and values of different
  kinds are unequal.
\<close>

fun py_eq :: "pyval \<Rightarrow> pyval \<Rightarrow> bool"
  and py_eq_list :: "pyval list \<Rightarrow> pyval list \<Rightarrow> bool"
  and py_eq_items :: "(string \<times> pyval) list \<Rightarrow> (string \<times> pyval) list \<Rightarrow> bool"
  and py_eq_key :: "string \<Rightarrow> pyval \<Rightarrow> (string \<times> pyval) list \<Rightarrow> bool"
where
  "py_eq PNone PNone = True"
| "py_eq (PStr s) (PStr t) = (s = t)"
| "py_eq (PList xs) (PList ys) = py_eq_list xs ys"
| "py_eq (PDict a) (PDict b) = (length a = length b \<and> py_eq_items a b)"
| "py_eq x y =
     (case (py_number x, py_number y) of (Some f, Some g) \<Rightarrow> float_eq f g | _ \<Rightarrow> False)"
| "py_eq_list [] [] = True"
| "py_eq_list (x # xs) (y # ys) = (py_eq x y \<and> py_eq_list xs ys)"
| "py_eq_list xs ys = False"
| "py_eq_items [] b = True"
| "py_eq_items ((k, v) # a) b = (py_eq_key k v b \<and> py_eq_items a b)"
| "py_eq_key k v [] = False"
| "py_eq_key k v ((k', v') # b) = (if k = k' then py_eq v v' else py_eq_key k v b)"

fun type_name :: "pyval \<Rightarrow> string" where
  "type_name PNone = ''NoneType''"
| "type_name (PBool b) = ''bool''"
| "type_name (PInt i) = ''int''"
| "type_name (PFloat f) = ''float''"
| "type_name (PStr s) = ''str''"
| "type_name (PList xs) = ''list''"
| "type_name (PDict kvs) = ''dict''"

definition quoted :: "string \<Rightarrow> string" where
  "quoted s = [CHR 0x27] @ s @ [CHR 0x27]"

text \<open>\<^verbatim>\<open>key in x\<close> for a string \<open>key\<close>.\<close>

fun py_in :: "string \<Rightarrow> pyval \<Rightarrow> exn + bool" where
  "py_in key (PDict kvs) = Inr (List.member (map fst kvs) key)"
| "py_in key (PList xs) = Inr (list_ex (py_eq (PStr key)) xs)"
| "py_in key (PStr s) = Inr (sublist key s)"
| "py_in key v =
     Inl (Exc TypeError (''argument of type '' @ quoted (type_name v) @ '' is not iterable''))"

text \<open>\<^verbatim>\<open>x[key]\<close> for a string \<open>key\<close>.\<close>

fun py_getitem :: "pyval \<Rightarrow> string \<Rightarrow> exn + pyval" where
  "py_getitem (PDict kvs) key =
     (case map_of kvs key of Some v \<Rightarrow> Inr v | None \<Rightarrow> Inl (Exc KeyError (quoted key)))"
| "py_getitem (PList xs) key =
     Inl (Exc TypeError ''list indices must be integers or slices, not str'')"
| "py_getitem (PStr s) key = Inl (Exc TypeError ''string indices must be integers'')"
| "py_getitem v key =
     Inl (Exc TypeError (quoted (type_name v) @ '' object is not subscriptable''))"

text \<open>\<^verbatim>\<open>x[0]\<close>.\<close>

fun py_first :: "pyval \<Rightarrow> exn + pyval" where
  "py_first (PList []) = Inl (Exc IndexError ''list index out of range'')"
| "py_first (PList (x # xs)) = Inr x"
| "py_first (PStr []) = Inl (Exc IndexError ''string index out of range'')"
| "py_first (PStr (c # s)) = Inr (PStr [c])"
| "py_first (PDict kvs) = Inl (Exc KeyError ''0'')"
| "py_first v = Inl (Exc TypeError (quoted (type_name v) @ '' object is not subscriptable''))"

text \<open>\<^verbatim>\<open>len(x)\<close>.\<close>

fun py_len :: "pyval \<Rightarrow> exn + nat" where
  "py_len (PList xs) = Inr (length xs)"
| "py_len (PStr s) = Inr (length s)"
| "py_len (PDict kvs) = Inr (length kvs)"
| "py_len v =
     Inl (Exc TypeError (''object of type '' @ quoted (type_name v) @ '' has no len()''))"

text \<open>\<^verbatim>\<open>x.get(key, default)\<close>: only a dictionary has the method.\<close>

fun py_get :: "pyval \<Rightarrow> string \<Rightarrow> pyval \<Rightarrow> exn + pyval" where
  "py_get (PDict kvs) key dflt = Inr (case map_of kvs key of Some v \<Rightarrow> v | None \<Rightarrow> dflt)"
| "py_get v key dflt =
     Inl (Exc AttributeError
       (quoted (type_name v) @ '' object has no attribute '' @ quoted ''get''))"

text \<open>Sequencing of steps that may raise: the first exception ends the sequence.\<close>

definition andthen :: "exn + 'a \<Rightarrow> ('a \<Rightarrow> exn + 'b) \<Rightarrow> exn + 'b" where
  "andthen m f = (case m of Inl e \<Rightarrow> Inl e | Inr x \<Rightarrow> f x)"

section \<open>The environment of a run\<close>

text \<open>
  What the scripts get from outside: the process environment, the file system, the
  network and the library functions whose code is not part of the repository. Each is a
  parameter; a call that may raise returns \<open>Inl\<close> of the exception.
\<close>

datatype pytext = Str string | Bytes string

record request =
  req_url :: string
  req_data :: string
  req_headers :: "(string \<times> string) list"

record env =
  environ :: "string \<rightharpoonup> string"
    \<comment> \<open>\<^verbatim>\<open>os.environ\<close>\<close>
  file_read :: "string \<Rightarrow> exn + string"
    \<comment> \<open>\<^verbatim>\<open>with open(filepath, 'r') as f: f.read()\<close>\<close>
  urlopen :: "request \<Rightarrow> nat \<Rightarrow> exn + (exn + string)"
    \<comment> \<open>\<^verbatim>\<open>urllib.request.urlopen(req, timeout=t)\<close>; the response it returns for a 2xx
        status is given by what its \<^verbatim>\<open>read()\<close> does\<close>
  utf8_decode :: "string \<Rightarrow> exn + string"
    \<comment> \<open>\<^verbatim>\<open>bytes.decode('utf-8')\<close>\<close>
  json_dumps :: "pyval \<Rightarrow> string"
  json_loads :: "pytext \<Rightarrow> exn + pyval"
  json_importable :: bool
    \<comment> \<open>whether \<^verbatim>\<open>import json\<close> succeeds (the diagnostics import it inside a \<^verbatim>\<open>try\<close>)\<close>
  str_other :: "pyval \<Rightarrow> string"
    \<comment> \<open>\<^verbatim>\<open>str(v)\<close> of a float, a list or a dictionary\<close>
  ssl_OPENSSL_VERSION :: "string option"
    \<comment> \<open>\<open>None\<close>: the attribute is missing\<close>
  ssl_PROTOCOL_TLSv1_2 :: bool
    \<comment> \<open>\<^verbatim>\<open>hasattr(ssl, 'PROTOCOL_TLSv1_2')\<close>\<close>

text \<open>
  The effects of a run: the text written to standard output, one entry per
  \<^verbatim>\<open>print\<close> or prompt, and the requests handed to \<^verbatim>\<open>urlopen\<close>, in order.
\<close>

record world =
  stdout :: "string list"
  net_calls :: "request list"

definition NL :: string where
  "NL = [CHR 0x0A]"

definition print :: "string \<Rightarrow> world \<Rightarrow> world" where
  "print s w = w\<lparr>stdout := stdout w @ [s @ NL]\<rparr>"

text \<open>How an f-string renders a value.\<close>

fun format_value :: "env \<Rightarrow> pyval \<Rightarrow> string" where
  "format_value E (PStr s) = s"
| "format_value E PNone = ''None''"
| "format_value E (PBool b) = (if b then ''True'' else ''False'')"
| "format_value E (PInt i) = str_int i"
| "format_value E v = str_other E v"

text \<open>UTF-8 of a string of code points below 256.\<close>

definition utf8_encode :: "string \<Rightarrow> string" where
  "utf8_encode s =
     concat (map (\<lambda>c. if of_char c < (128::nat) then [c]
                        else [char_of (192 + of_char c div (64::nat)),
                              char_of (128 + of_char c mod (64::nat))]) s)"

section \<open>The client: \<^verbatim>\<open>claude_powerbook.py\<close>\<close>

subsection \<open>Configuration\<close>

definition ANTHROPIC_API_KEY :: "env \<Rightarrow> string" where
  "ANTHROPIC_API_KEY E =
     (case environ E ''ANTHROPIC_API_KEY'' of None \<Rightarrow> [] | Some k \<Rightarrow> k)"

definition API_URL :: string where
  "API_URL = ''https://api.anthropic.com/v1/messages''"

definition API_VERSION :: string where
  "API_VERSION = ''2023-06-01''"

definition MODEL :: string where
  "MODEL = ''claude-sonnet-4-20250514''"

definition MAX_TOKENS :: int where
  "MAX_TOKENS = 4000"

subsection \<open>\<^verbatim>\<open>check_ssl\<close>\<close>

definition check_ssl :: "env \<Rightarrow> world \<Rightarrow> bool \<times> world" where
  "check_ssl E w =
     (case ssl_OPENSSL_VERSION E of
        None \<Rightarrow> (False, print ''ERROR: SSL module not available or too old'' w)
      | Some ssl_version \<Rightarrow>
          (let w1 = print (''Using: '' @ ssl_version) w in
           if \<not> ssl_PROTOCOL_TLSv1_2 E then
             (False,
              print ''You may need to rebuild Python's ssl module against OpenSSL 3.x''
                (print ''WARNING: TLS 1.2 support may not be available'' w1))
           else (True, w1)))"

subsection \<open>\<^verbatim>\<open>read_file\<close>\<close>

text \<open>
  Returns the contents, or \<^verbatim>\<open>None\<close> after printing the error when the read raises an
  \<^verbatim>\<open>IOError\<close>. Any other exception is not caught.
\<close>

definition read_file :: "env \<Rightarrow> world \<Rightarrow> string \<Rightarrow> (exn + string option) \<times> world" where
  "read_file E w filepath =
     (case file_read E filepath of
        Inr contents \<Rightarrow> (Inr (Some contents), w)
      | Inl e \<Rightarrow>
          if is_OSError e then (Inr None, print (''Error reading file: '' @ exn_str e) w)
          else (Inl e, w))"

subsection \<open>\<^verbatim>\<open>call_claude_api\<close>\<close>

definition payload :: "string \<Rightarrow> pyval" where
  "payload prompt =
     PDict [(''model'', PStr MODEL),
            (''max_tokens'', PInt MAX_TOKENS),
            (''messages'', PList [PDict [(''role'', PStr ''user''), (''content'', PStr prompt)]])]"

definition api_request :: "env \<Rightarrow> string \<Rightarrow> request" where
  "api_request E prompt =
     \<lparr>req_url = API_URL,
      req_data = utf8_encode (json_dumps E (payload prompt)),
      req_headers = [(''Content-Type'', ''application/json''),
                     (''x-api-key'', ANTHROPIC_API_KEY E),
                     (''anthropic-version'', API_VERSION)]\<rparr>"

definition unexpected_format :: string where
  "unexpected_format = ''ERROR: Unexpected response format''"

text \<open>
  Lines 86 to 89: \<^verbatim>\<open>if 'content' in result and len(result['content']) > 0\<close> then
  \<^verbatim>\<open>result['content'][0]['text']\<close>, else the fixed message.
\<close>

definition extract_text :: "pyval \<Rightarrow> exn + pyval" where
  "extract_text result =
     andthen (py_in ''content'' result) (\<lambda>present.
       if \<not> present then Inr (PStr unexpected_format)
       else andthen (py_getitem result ''content'') (\<lambda>c.
            andthen (py_len c) (\<lambda>n.
              if n > 0 then
                andthen (py_getitem result ''content'') (\<lambda>c'.
                andthen (py_first c') (\<lambda>block. py_getitem block ''text''))
              else Inr (PStr unexpected_format))))"

text \<open>Lines 82 and 83, then the extraction: the body of the \<^verbatim>\<open>try\<close> from the call on.\<close>

definition api_attempt :: "env \<Rightarrow> request \<Rightarrow> exn + pyval" where
  "api_attempt E req =
     andthen (urlopen E req 60) (\<lambda>response.
     andthen response (\<lambda>body.
     andthen (utf8_decode E body) (\<lambda>decoded.
     andthen (json_loads E (Str decoded)) extract_text)))"

text \<open>
  Lines 91 to 101, the handlers. In the first, \<^verbatim>\<open>e.read()\<close> stands outside the inner
  \<^verbatim>\<open>try\<close>; the inner \<^verbatim>\<open>except:\<close> catches everything.
\<close>

definition http_error_text :: "env \<Rightarrow> int \<Rightarrow> string \<Rightarrow> string" where
  "http_error_text E code error_body =
     (let fallback = ''HTTP Error '' @ str_int code @ '': '' @ bytes_repr error_body in
      case json_loads E (Bytes error_body) of
        Inl e \<Rightarrow> fallback
      | Inr error_json \<Rightarrow>
          (case andthen (py_get error_json ''error'' (PDict []))
                  (\<lambda>err. py_get err ''message'' (PStr ''Unknown error'')) of
             Inl e \<Rightarrow> fallback
           | Inr msg \<Rightarrow> ''API Error ('' @ str_int code @ ''): '' @ format_value E msg))"

fun api_except :: "env \<Rightarrow> exn \<Rightarrow> exn + pyval" where
  "api_except E (HTTPError code m (Inl (c, m'))) = Inl (Exc c m')"
| "api_except E (HTTPError code m (Inr error_body)) =
     Inr (PStr (http_error_text E code error_body))"
| "api_except E (Exc c m) =
     (if c = URLError then Inr (PStr (''Connection Error: '' @ m))
      else if is_Exception (Exc c m) then Inr (PStr (''Error: '' @ exn_str (Exc c m)))
      else Inl (Exc c m))"
| "api_except E (SystemExit n) = Inl (SystemExit n)"

definition key_not_set :: string where
  "key_not_set = ''ERROR: ANTHROPIC_API_KEY environment variable not set''"

definition call_claude_api :: "env \<Rightarrow> world \<Rightarrow> string \<Rightarrow> (exn + pyval) \<times> world" where
  "call_claude_api E w prompt =
     (if ANTHROPIC_API_KEY E = [] then (Inr (PStr key_not_set), w)
      else
        (let req = api_request E prompt;
             w' = w\<lparr>net_calls := net_calls w @ [req]\<rparr>
         in (case api_attempt E req of
               Inr v \<Rightarrow> (Inr v, w')
             | Inl e \<Rightarrow> (api_except E e, w'))))"

subsection \<open>\<^verbatim>\<open>send_to_claude\<close>\<close>

definition could_not_read :: string where
  "could_not_read = ''[Could not read file]''"

text \<open>What one turn of the loop over \<^verbatim>\<open>context_files\<close> appends (lines 117 to 120).\<close>

definition file_section :: "string \<Rightarrow> string option \<Rightarrow> string" where
  "file_section filepath content =
     (case content of
        Some (c # cs) \<Rightarrow> NL @ ''--- '' @ filepath @ '' ---'' @ NL @ (c # cs) @ NL
      | _ \<Rightarrow> NL @ ''--- '' @ filepath @ '' ---'' @ NL @ could_not_read @ NL)"

fun add_context :: "env \<Rightarrow> string list \<Rightarrow> string \<Rightarrow> world \<Rightarrow> (exn + string) \<times> world" where
  "add_context E [] full_prompt w = (Inr full_prompt, w)"
| "add_context E (filepath # rest) full_prompt w =
     (case read_file E w filepath of
        (Inl e, w') \<Rightarrow> (Inl e, w')
      | (Inr content, w') \<Rightarrow> add_context E rest (full_prompt @ file_section filepath content) w')"

text \<open>Lines 111 to 120: the prompt that is sent.\<close>

definition full_prompt :: "env \<Rightarrow> world \<Rightarrow> string \<Rightarrow> string list option \<Rightarrow> (exn + string) \<times> world" where
  "full_prompt E w prompt context_files =
     (case context_files of
        Some (f # fs) \<Rightarrow> add_context E (f # fs) (prompt @ NL @ NL @ ''Context files:'' @ NL) w
      | _ \<Rightarrow> (Inr prompt, w))"

definition send_to_claude ::
  "env \<Rightarrow> world \<Rightarrow> string \<Rightarrow> string list option \<Rightarrow> (exn + pyval) \<times> world" where
  "send_to_claude E w prompt context_files =
     (case full_prompt E w prompt context_files of
        (Inl e, w') \<Rightarrow> (Inl e, w')
      | (Inr p, w') \<Rightarrow> call_claude_api E w' p)"

subsection \<open>\<^verbatim>\<open>interactive_mode\<close>\<close>

text \<open>
  \<^verbatim>\<open>str.isspace\<close> on code points below 256, \<^verbatim>\<open>str.strip()\<close>, \<^verbatim>\<open>str.split(None, n)\<close>
  and \<^verbatim>\<open>" ".join\<close>.
\<close>

definition py_isspace :: "char \<Rightarrow> bool" where
  "py_isspace c =
     (let n = (of_char c :: nat) in (9 \<le> n \<and> n \<le> 13) \<or> (28 \<le> n \<and> n \<le> 32) \<or> n = 133 \<or> n = 160)"

definition strip :: "string \<Rightarrow> string" where
  "strip s = rev (dropWhile py_isspace (rev (dropWhile py_isspace s)))"

fun split_ws :: "nat \<Rightarrow> string \<Rightarrow> string list" where
  "split_ws 0 s = (let r = dropWhile py_isspace s in if r = [] then [] else [r])"
| "split_ws (Suc n) s =
     (let r = dropWhile py_isspace s in
      if r = [] then []
      else takeWhile (\<lambda>c. \<not> py_isspace c) r # split_ws n (dropWhile (\<lambda>c. \<not> py_isspace c) r))"

fun join_sp :: "string list \<Rightarrow> string" where
  "join_sp [] = []"
| "join_sp [x] = x"
| "join_sp (x # y # ys) = x @ '' '' @ join_sp (y # ys)"

text \<open>
  The five commands that call \<^verbatim>\<open>send_to_claude\<close> share their last three lines: print
  the notice, call, print the response between two empty lines.
\<close>

definition ask_claude ::
  "env \<Rightarrow> world \<Rightarrow> string \<Rightarrow> string \<Rightarrow> string list option \<Rightarrow> (exn + unit) \<times> world" where
  "ask_claude E w notice prompt context_files =
     (case send_to_claude E (print (NL @ notice) w) prompt context_files of
        (Inl e, w') \<Rightarrow> (Inl e, w')
      | (Inr response, w') \<Rightarrow> (Inr (), print (NL @ format_value E response @ NL) w'))"

definition explain_prompt :: string where
  "explain_prompt =
     ''Please explain what this code does, how it works, and any important details:''"

definition fix_prompt :: string where
  "fix_prompt =
     ''Please review this code and suggest improvements, bug fixes, or optimizations:''"

definition review_prompt :: string where
  "review_prompt =
     ''Please perform a thorough code review, checking for bugs, security issues, style problems, and suggesting improvements:''"

definition test_prompt :: string where
  "test_prompt =
     ''Please generate unit tests for this code. Include edge cases and error conditions:''"

text \<open>Lines 160 to 231: one command line, already stripped and not empty, not \<^verbatim>\<open>quit\<close>.\<close>

definition run_command :: "env \<Rightarrow> world \<Rightarrow> string \<Rightarrow> (exn + unit) \<times> world" where
  "run_command E w line =
     (let parts = split_ws 2 line;
          command = (case parts of [] \<Rightarrow> [] | p # ps \<Rightarrow> p)
      in
      if command = ''ask'' then
        (if length parts < 2 then (Inr (), print ''Usage: ask <question>'' w)
         else ask_claude E w ''Thinking...'' (join_sp (tl parts)) None)
      else if command = ''file'' then
        (if length parts < 3 then (Inr (), print ''Usage: file <path> <question>'' w)
         else ask_claude E w ''Analyzing...'' (parts ! 2) (Some [parts ! 1]))
      else if command = ''explain'' then
        (if length parts < 2 then (Inr (), print ''Usage: explain <path>'' w)
         else ask_claude E w ''Analyzing...'' explain_prompt (Some [parts ! 1]))
      else if command = ''fix'' then
        (if length parts < 2 then (Inr (), print ''Usage: fix <path>'' w)
         else ask_claude E w ''Analyzing...'' fix_prompt (Some [parts ! 1]))
      else if command = ''review'' then
        (if length parts < 2 then (Inr (), print ''Usage: review <path>'' w)
         else ask_claude E w ''Reviewing...'' review_prompt (Some [parts ! 1]))
      else if command = ''test'' then
        (if length parts < 2 then (Inr (), print ''Usage: test <path>'' w)
         else ask_claude E w ''Generating tests...'' test_prompt (Some [parts ! 1]))
      else (Inr (), print (''Unknown command: '' @ command) w))"

text \<open>
  What \<^verbatim>\<open>input("claude> ")\<close> meets on standard input: a line, or an interrupt from
  the keyboard while it waits. The end of the list is the end of the input, where
  \<^verbatim>\<open>input\<close> raises \<^verbatim>\<open>EOFError\<close>.
\<close>

datatype stdin_event = Line string | Interrupt

definition show_prompt :: "world \<Rightarrow> world" where
  "show_prompt w = w\<lparr>stdout := stdout w @ [''claude> '']\<rparr>"

definition interrupt_hint :: string where
  "interrupt_hint = NL @ ''Use '' @ quoted ''quit'' @ '' to exit''"

text \<open>
  The \<^verbatim>\<open>while True\<close> loop (lines 149 to 236). \<open>Inr ()\<close>: the loop was left by a
  \<^verbatim>\<open>break\<close>; \<open>Inl e\<close>: \<open>e\<close> was raised in the body and neither handler caught it.
\<close>

fun command_loop :: "env \<Rightarrow> stdin_event list \<Rightarrow> world \<Rightarrow> (exn + unit) \<times> world" where
  "command_loop E [] w = (Inr (), show_prompt w)"
| "command_loop E (Interrupt # rest) w = command_loop E rest (print interrupt_hint (show_prompt w))"
| "command_loop E (Line l # rest) w =
     (let w1 = show_prompt w; line = strip l in
      if line = [] then command_loop E rest w1
      else if line = ''quit'' then (Inr (), w1)
      else (case run_command E w1 line of
              (Inr u, w2) \<Rightarrow> command_loop E rest w2
            | (Inl e, w2) \<Rightarrow>
                if is_class KeyboardInterrupt e then command_loop E rest (print interrupt_hint w2)
                else if is_class EOFError e then (Inr (), w2)
                else (Inl e, w2)))"

definition banner :: "world \<Rightarrow> world" where
  "banner w = print [] (print ''Claude Client for PowerBook G4 (Direct API)'' w)"

definition ssl_warning :: "world \<Rightarrow> world" where
  "ssl_warning w =
     print (''Make sure Python is linked against OpenSSL 3.x'' @ NL)
       (print (NL @ ''WARNING: SSL issues detected. API calls may fail.'') w)"

definition command_help :: "world \<Rightarrow> world" where
  "command_help w =
     print []
    (print ''  quit - Exit''
    (print ''  test <path> - Generate tests for code''
    (print ''  review <path> - Get a code review''
    (print ''  fix <path> - Ask Claude to suggest fixes for a file''
    (print ''  explain <path> - Ask Claude to explain a file''
    (print ''  file <path> <question> - Ask about a specific file''
    (print ''  ask <question> - Ask Claude a question''
    (print (NL @ ''Commands:'') w))))))))"

definition interactive_mode :: "env \<Rightarrow> world \<Rightarrow> stdin_event list \<Rightarrow> (exn + unit) \<times> world" where
  "interactive_mode E w events =
     (let (ssl_ok, w1) = check_ssl E (banner w);
          w2 = (if \<not> ssl_ok then ssl_warning w1 else w1)
      in
      if ANTHROPIC_API_KEY E = [] then
        (Inr (),
         print ''Set it with: export ANTHROPIC_API_KEY=sk-ant-...''
           (print ''ERROR: ANTHROPIC_API_KEY environment variable not set!'' w2))
      else
        (case command_loop E events (command_help w2) of
           (Inl e, w3) \<Rightarrow> (Inl e, w3)
         | (Inr u, w3) \<Rightarrow> (Inr (), print ''Goodbye!'' w3)))"

subsection \<open>\<^verbatim>\<open>main\<close>\<close>

text \<open>\<^verbatim>\<open>sys.exit(1)\<close> raises \<^verbatim>\<open>SystemExit(1)\<close>.\<close>

definition single_shot ::
  "env \<Rightarrow> world \<Rightarrow> string \<Rightarrow> string list option \<Rightarrow> (exn + unit) \<times> world" where
  "single_shot E w question files =
     (if ANTHROPIC_API_KEY E = [] then
        (Inl (SystemExit 1), print ''ERROR: ANTHROPIC_API_KEY not set'' w)
      else
        (case send_to_claude E w question files of
           (Inl e, w') \<Rightarrow> (Inl e, w')
         | (Inr response, w') \<Rightarrow> (Inr (), print (format_value E response) w')))"

definition main :: "env \<Rightarrow> world \<Rightarrow> string list \<Rightarrow> stdin_event list \<Rightarrow> (exn + unit) \<times> world" where
  "main E w argv events =
     (if length argv = 1 then interactive_mode E w events
      else if length argv < 2 then (Inl (Exc IndexError ''list index out of range''), w)
      else if argv ! 1 = ''--check-ssl'' then
        (Inr (), snd (check_ssl E (print (''Checking SSL configuration...'' @ NL) w)))
      else if length argv = 2 then single_shot E w (argv ! 1) None
      else single_shot E w (argv ! 1) (Some (drop 2 argv)))"

text \<open>
  The status the process exits with: zero when \<^verbatim>\<open>main\<close> returns, the argument of
  \<^verbatim>\<open>sys.exit\<close>, and a non-zero status after an exception that nothing caught (130 when
  it is the interrupt, 1 otherwise).
\<close>

fun exit_status :: "exn + unit \<Rightarrow> int" where
  "exit_status (Inr u) = 0"
| "exit_status (Inl (SystemExit n)) = n"
| "exit_status (Inl (Exc c m)) = (if c = KeyboardInterrupt then 130 else 1)"
| "exit_status (Inl (HTTPError code m body)) = 1"

section \<open>The diagnostics: \<^verbatim>\<open>test_setup.py\<close>\<close>

definition print_header :: "string \<Rightarrow> world \<Rightarrow> world" where
  "print_header t w =
     print (replicate 60 CHR ''='') (print t (print (NL @ replicate 60 CHR ''='') w))"

definition test_obj :: pyval where
  "test_obj = PDict [(''test'', PStr ''value''), (''number'', PInt 42)]"

text \<open>
  \<^verbatim>\<open>check_json\<close>: only an \<^verbatim>\<open>ImportError\<close> is caught, so another exception raised while
  decoding leaves the function.
\<close>

definition json_unavailable :: "world \<Rightarrow> world" where
  "json_unavailable w =
     print ''This should be included in Python 3.10+''
       (print ''ERROR: JSON module not available'' w)"

definition check_json :: "env \<Rightarrow> world \<Rightarrow> (exn + bool) \<times> world" where
  "check_json E w =
     (let w1 = print_header ''JSON Support'' w in
      if \<not> json_importable E then (Inr False, json_unavailable w1)
      else
        (let w2 = print ''JSON module: Available'' w1;
             encoded = json_dumps E test_obj
         in (case json_loads E (Str encoded) of
               Inl e \<Rightarrow>
                 if is_class ImportError e then (Inr False, json_unavailable w2)
                 else (Inl e, w2)
             | Inr decoded \<Rightarrow>
                 if py_eq decoded test_obj then
                   (Inr True,
                    print ''OK: JSON support is good''
                      (print ''JSON encoding/decoding: Working'' w2))
                 else (Inr False, print ''ERROR: JSON encoding/decoding failed'' w2))))"

section \<open>A simulated environment\<close>

text \<open>
  The environment of the examples. The credential is set; \<^verbatim>\<open>notes.txt\<close> holds two
  lines, \<^verbatim>\<open>empty.txt\<close> exists and is empty, \<^verbatim>\<open>photo.jpg\<close> is not text in the locale's
  encoding, and no other file exists. The decoder knows the four bodies below and
  rejects every other text; the network answers every request the same way, with the
  outcome the environment is built from.
\<close>

definition reply_body :: string where
  "reply_body = ''{\"content\": [{\"type\": \"text\", \"text\": \"Hello!\"}]}''"

definition empty_reply_body :: string where
  "empty_reply_body = ''{\"content\": []}''"

definition error_reply_body :: string where
  "error_reply_body =
     ''{\"type\": \"error\", \"error\": {\"type\": \"authentication_error\", \"message\": \"invalid x-api-key\"}}''"

definition test_obj_text :: string where
  "test_obj_text = ''{\"test\": \"value\", \"number\": 42}''"

definition sim_files :: "string \<Rightarrow> exn + string" where
  "sim_files filepath =
     (if filepath = ''notes.txt'' then Inr (''first line'' @ NL @ ''second line'' @ NL)
      else if filepath = ''empty.txt'' then Inr []
      else if filepath = ''photo.jpg'' then
        Inl (Exc UnicodeDecodeError
          (quoted ''utf-8'' @ '' codec can't decode byte 0xff in position 0: invalid start byte''))
      else
        Inl (Exc OSError (''[Errno 2] No such file or directory: '' @ quoted filepath)))"

definition sim_loads :: "pytext \<Rightarrow> exn + pyval" where
  "sim_loads t =
     (let s = (case t of Str s \<Rightarrow> s | Bytes s \<Rightarrow> s) in
      if s = reply_body then
        Inr (PDict [(''content'', PList [PDict [(''type'', PStr ''text''), (''text'', PStr ''Hello!'')]])])
      else if s = empty_reply_body then Inr (PDict [(''content'', PList [])])
      else if s = error_reply_body then
        Inr (PDict [(''type'', PStr ''error''),
                    (''error'', PDict [(''type'', PStr ''authentication_error''),
                                       (''message'', PStr ''invalid x-api-key'')])])
      else if s = test_obj_text then Inr test_obj
      else Inl (Exc JSONDecodeError ''Expecting value: line 1 column 1 (char 0)''))"

definition sim_dumps :: "pyval \<Rightarrow> string" where
  "sim_dumps v = (if v = test_obj then test_obj_text else ''null'')"

definition sim_env :: "exn + (exn + string) \<Rightarrow> env" where
  "sim_env outcome =
     \<lparr>environ = [''ANTHROPIC_API_KEY'' \<mapsto> ''sk-ant-example''],
      file_read = sim_files,
      urlopen = (\<lambda>req timeout. outcome),
      utf8_decode = Inr,
      json_dumps = sim_dumps,
      json_loads = sim_loads,
      json_importable = True,
      str_other = (\<lambda>v. ''...''),
      ssl_OPENSSL_VERSION = Some ''OpenSSL 3.0.13 30 Jan 2024'',
      ssl_PROTOCOL_TLSv1_2 = True\<rparr>"

definition w0 :: world where
  "w0 = \<lparr>stdout = [], net_calls = []\<rparr>"

text \<open>
  A body that is not a JSON text, for the HTTP error example, and the bytes that
  \<open>bytes_repr\<close> writes as they are: those that need no escape.
\<close>

definition html_body :: string where
  "html_body = ''<html>'' @ NL @ ''</html>''"

definition unescaped :: "string \<Rightarrow> bool" where
  "unescaped bs = list_all (\<lambda>c. byte_repr (bytes_quote bs) c = [c]) bs"

text \<open>
  The section of one context file as the specification words it: the header, the
  content when the read succeeds and the marker when it fails, then a line break.
\<close>

definition claimed_section :: "env \<Rightarrow> string \<Rightarrow> string" where
  "claimed_section E filepath =
     NL @ ''--- '' @ filepath @ '' ---'' @ NL
       @ (case file_read E filepath of Inr content \<Rightarrow> content | Inl e \<Rightarrow> ''[Could not read file]'')
       @ NL"

text \<open>
  The section in closed form, as the loop of \<^verbatim>\<open>send_to_claude\<close> builds it when the read
  returns or raises an \<^verbatim>\<open>IOError\<close>.
\<close>

definition shown_section :: "env \<Rightarrow> string \<Rightarrow> string" where
  "shown_section E filepath =
     NL @ ''--- '' @ filepath @ '' ---'' @ NL
       @ (case file_read E filepath of Inr (c # cs) \<Rightarrow> c # cs | _ \<Rightarrow> ''[Could not read file]'')
       @ NL"


text \<open>The simulated environment with no file at all.\<close>

definition no_files_env :: env where
  "no_files_env =
     (sim_env (Inr (Inr reply_body)))
       \<lparr>file_read := (\<lambda>filepath.
          Inl (Exc OSError (''[Errno 2] No such file or directory: '' @ quoted filepath)))\<rparr>"

section \<open>Properties of the client\<close>

subsection \<open>Shared facts\<close>

lemma key_present: "map_of kvs key = Some v \<Longrightarrow> key \<in> fst ` set kvs"
  by (force dest: map_of_SomeD)

lemma key_absent: "map_of kvs key = None \<Longrightarrow> key \<notin> fst ` set kvs"
  by (simp add: map_of_eq_None_iff)

lemma call_with_key:
  "ANTHROPIC_API_KEY E \<noteq> [] \<Longrightarrow>
   call_claude_api E w prompt =
     ((case api_attempt E (api_request E prompt) of Inr v \<Rightarrow> Inr v | Inl e \<Rightarrow> api_except E e),
      w\<lparr>net_calls := net_calls w @ [api_request E prompt]\<rparr>)"
  by (simp add: call_claude_api_def Let_def split: sum.splits)

lemma api_attempt_decoded:
  "urlopen E req 60 = Inr (Inr body) \<Longrightarrow> utf8_decode E body = Inr decoded \<Longrightarrow>
   json_loads E (Str decoded) = Inr result \<Longrightarrow> api_attempt E req = extract_text result"
  by (simp add: api_attempt_def andthen_def)

lemma sim_key: "ANTHROPIC_API_KEY (sim_env outcome) = ''sk-ant-example''"
  by (simp add: ANTHROPIC_API_KEY_def sim_env_def)

subsection \<open>The missing credential\<close>

text \<open>
  Claim C3. When the credential variable is unset or empty, \<^verbatim>\<open>call_claude_api\<close>
  returns the fixed message at once, whatever the prompt, and the world is the one it
  was called in: no request was built and \<^verbatim>\<open>urlopen\<close> was not called.
\<close>

theorem missing_key_short_circuit:
  assumes "environ E ''ANTHROPIC_API_KEY'' = None \<or> environ E ''ANTHROPIC_API_KEY'' = Some []"
  shows "call_claude_api E w prompt =
           (Inr (PStr ''ERROR: ANTHROPIC_API_KEY environment variable not set''), w)
         \<and> net_calls (snd (call_claude_api E w prompt)) = net_calls w"
  using assms by (auto simp: call_claude_api_def ANTHROPIC_API_KEY_def key_not_set_def)

theorem missing_key_short_circuit_witness:
  "call_claude_api ((sim_env (Inr (Inr reply_body)))\<lparr>environ := Map.empty\<rparr>) w0 ''Hello''
     = (Inr (PStr ''ERROR: ANTHROPIC_API_KEY environment variable not set''), w0)
   \<and> net_calls (snd (call_claude_api ((sim_env (Inr (Inr reply_body)))\<lparr>environ := Map.empty\<rparr>) w0 ''Hello''))
     = net_calls w0
   \<and> call_claude_api
        ((sim_env (Inr (Inr reply_body)))\<lparr>environ := [''ANTHROPIC_API_KEY'' \<mapsto> []]\<rparr>) w0 ''Hello''
     = (Inr (PStr ''ERROR: ANTHROPIC_API_KEY environment variable not set''), w0)"
proof -
  let ?U = "(sim_env (Inr (Inr reply_body)))\<lparr>environ := Map.empty\<rparr>"
  let ?V = "(sim_env (Inr (Inr reply_body)))\<lparr>environ := [''ANTHROPIC_API_KEY'' \<mapsto> []]\<rparr>"
  have 1: "environ ?U ''ANTHROPIC_API_KEY'' = None \<or> environ ?U ''ANTHROPIC_API_KEY'' = Some []"
    by simp
  have 2: "environ ?V ''ANTHROPIC_API_KEY'' = None \<or> environ ?V ''ANTHROPIC_API_KEY'' = Some []"
    by simp
  show ?thesis
    using missing_key_short_circuit [OF 1, of w0 "''Hello''"]
      missing_key_short_circuit [OF 2, of w0 "''Hello''"]
    by blast
qed

subsection \<open>The success response\<close>

text \<open>
  Claim C2. With the credential set, when the call returns a 2xx response whose body
  decodes to a JSON object with a non-empty \<^verbatim>\<open>content\<close> array whose first element is an
  object with a \<^verbatim>\<open>text\<close> member, \<^verbatim>\<open>call_claude_api\<close> returns exactly the value of that
  member.
\<close>

theorem success_returns_first_text:
  assumes "ANTHROPIC_API_KEY E \<noteq> []"
    and "urlopen E (api_request E prompt) 60 = Inr (Inr body)"
    and "utf8_decode E body = Inr decoded"
    and "json_loads E (Str decoded) = Inr (PDict kvs)"
    and "map_of kvs ''content'' = Some (PList (PDict block # blocks))"
    and "map_of block ''text'' = Some t"
  shows "fst (call_claude_api E w prompt) = Inr t"
proof -
  have "extract_text (PDict kvs) = Inr t"
    using assms(5,6) by (simp add: extract_text_def andthen_def key_present)
  then have "api_attempt E (api_request E prompt) = Inr t"
    using api_attempt_decoded [OF assms(2,3,4)] by simp
  then show ?thesis
    using assms(1) by (simp add: call_with_key)
qed

theorem success_returns_first_text_witness:
  "fst (call_claude_api (sim_env (Inr (Inr reply_body))) w0 ''Hello'') = Inr (PStr ''Hello!'')"
proof -
  let ?E = "sim_env (Inr (Inr reply_body))"
  have 1: "ANTHROPIC_API_KEY ?E \<noteq> []" by (simp add: sim_key)
  have 2: "urlopen ?E (api_request ?E ''Hello'') 60 = Inr (Inr reply_body)"
    by (simp add: sim_env_def)
  have 3: "utf8_decode ?E reply_body = Inr reply_body" by (simp add: sim_env_def)
  have 4: "json_loads ?E (Str reply_body) =
      Inr (PDict [(''content'', PList [PDict [(''type'', PStr ''text''), (''text'', PStr ''Hello!'')]])])"
    by (simp add: sim_env_def sim_loads_def)
  have 5: "map_of [(''content'', PList [PDict [(''type'', PStr ''text''), (''text'', PStr ''Hello!'')]])] ''content''
      = Some (PList (PDict [(''type'', PStr ''text''), (''text'', PStr ''Hello!'')] # []))"
    by simp
  have 6: "map_of [(''type'', PStr ''text''), (''text'', PStr ''Hello!'')] ''text'' = Some (PStr ''Hello!'')"
    by simp
  show ?thesis
    by (rule success_returns_first_text [OF 1 2 3 4 5 6])
qed

text \<open>
  Claim C5. With the credential set, when the call returns a 2xx response whose body
  decodes to a JSON object that has no \<^verbatim>\<open>content\<close> member, or whose \<^verbatim>\<open>content\<close> is the
  empty array, \<^verbatim>\<open>call_claude_api\<close> returns the fixed message about the response format.
\<close>

theorem malformed_success_body:
  assumes "ANTHROPIC_API_KEY E \<noteq> []"
    and "urlopen E (api_request E prompt) 60 = Inr (Inr body)"
    and "utf8_decode E body = Inr decoded"
    and "json_loads E (Str decoded) = Inr (PDict kvs)"
    and "map_of kvs ''content'' = None \<or> map_of kvs ''content'' = Some (PList [])"
  shows "fst (call_claude_api E w prompt) = Inr (PStr ''ERROR: Unexpected response format'')"
proof -
  have "extract_text (PDict kvs) = Inr (PStr ''ERROR: Unexpected response format'')"
  proof (cases "map_of kvs ''content''")
    case None
    then have "''content'' \<notin> fst ` set kvs"
      by (rule key_absent)
    then show ?thesis
      by (simp add: extract_text_def andthen_def unexpected_format_def)
  next
    case (Some c)
    then have "''content'' \<in> fst ` set kvs" and "c = PList []"
      using assms(5) by (simp_all add: key_present)
    then show ?thesis
      using Some by (simp add: extract_text_def andthen_def unexpected_format_def)
  qed
  then have "api_attempt E (api_request E prompt) = Inr (PStr ''ERROR: Unexpected response format'')"
    using api_attempt_decoded [OF assms(2,3,4)] by simp
  then show ?thesis
    using assms(1) by (simp add: call_with_key)
qed

theorem malformed_success_body_witness:
  "fst (call_claude_api (sim_env (Inr (Inr empty_reply_body))) w0 ''Hello'')
     = Inr (PStr ''ERROR: Unexpected response format'')
   \<and> fst (call_claude_api (sim_env (Inr (Inr error_reply_body))) w0 ''Hello'')
     = Inr (PStr ''ERROR: Unexpected response format'')"
proof -
  let ?E = "sim_env (Inr (Inr empty_reply_body))"
  have 1: "ANTHROPIC_API_KEY ?E \<noteq> []" by (simp add: sim_key)
  have 2: "urlopen ?E (api_request ?E ''Hello'') 60 = Inr (Inr empty_reply_body)"
    by (simp add: sim_env_def)
  have 3: "utf8_decode ?E empty_reply_body = Inr empty_reply_body" by (simp add: sim_env_def)
  have 4: "json_loads ?E (Str empty_reply_body) = Inr (PDict [(''content'', PList [])])"
    by (simp add: sim_env_def sim_loads_def empty_reply_body_def reply_body_def)
  have 5: "map_of [(''content'', PList [])] ''content'' = None
         \<or> map_of [(''content'', PList [])] ''content'' = Some (PList [])"
    by simp
  let ?F = "sim_env (Inr (Inr error_reply_body))"
  let ?kvs = "[(''type'', PStr ''error''),
               (''error'', PDict [(''type'', PStr ''authentication_error''),
                                  (''message'', PStr ''invalid x-api-key'')])]"
  have 6: "ANTHROPIC_API_KEY ?F \<noteq> []" by (simp add: sim_key)
  have 7: "urlopen ?F (api_request ?F ''Hello'') 60 = Inr (Inr error_reply_body)"
    by (simp add: sim_env_def)
  have 8: "utf8_decode ?F error_reply_body = Inr error_reply_body" by (simp add: sim_env_def)
  have 9: "json_loads ?F (Str error_reply_body) = Inr (PDict ?kvs)"
    by (simp add: sim_env_def sim_loads_def error_reply_body_def empty_reply_body_def reply_body_def)
  have 10: "map_of ?kvs ''content'' = None \<or> map_of ?kvs ''content'' = Some (PList [])"
    by simp
  show ?thesis
    using malformed_success_body [OF 1 2 3 4 5, of w0] malformed_success_body [OF 6 7 8 9 10, of w0]
    by (rule conjI)
qed

subsection \<open>HTTP error responses\<close>

lemma unescaped_repr: "unescaped bs \<Longrightarrow> concat (map (byte_repr (bytes_quote bs)) bs) = bs"
proof -
  have "list_all (\<lambda>c. f c = [c]) xs \<Longrightarrow> concat (map f xs) = xs" for f :: "char \<Rightarrow> string" and xs
    by (induction xs) simp_all
  then show "unescaped bs \<Longrightarrow> concat (map (byte_repr (bytes_quote bs)) bs) = bs"
    unfolding unescaped_def by blast
qed

lemma api_attempt_raises:
  "urlopen E req 60 = Inl e \<Longrightarrow> api_attempt E req = Inl e"
  by (simp add: api_attempt_def andthen_def)

text \<open>
  Claim C6, as amended. With the credential set, when \<^verbatim>\<open>urlopen\<close> raises an
  \<^verbatim>\<open>HTTPError\<close> whose body can be read: if the body decodes to a JSON object whose
  \<^verbatim>\<open>error\<close> member is an object with a string \<^verbatim>\<open>message\<close>, the returned string is
  \<^verbatim>\<open>API Error (<code>): <message>\<close> and so contains the decimal status code and the
  message; if the body does not decode, the returned string is \<^verbatim>\<open>HTTP Error <code>: \<close>
  followed by the bytes literal of the body, which contains the decimal status code, and
  contains the body itself whenever no byte of the body needs an escape.
\<close>

theorem http_error_rendering:
  assumes "ANTHROPIC_API_KEY E \<noteq> []"
    and "urlopen E (api_request E prompt) 60 = Inl (HTTPError code m (Inr error_body))"
  shows "(json_loads E (Bytes error_body) = Inr (PDict kvs)
            \<and> map_of kvs ''error'' = Some (PDict err) \<and> map_of err ''message'' = Some (PStr msg)
          \<longrightarrow> (let s = ''API Error ('' @ str_int code @ ''): '' @ msg in
                fst (call_claude_api E w prompt) = Inr (PStr s)
                \<and> sublist (str_int code) s \<and> sublist msg s))
       \<and> (json_loads E (Bytes error_body) = Inl e
          \<longrightarrow> (let s = ''HTTP Error '' @ str_int code @ '': '' @ bytes_repr error_body in
                fst (call_claude_api E w prompt) = Inr (PStr s)
                \<and> sublist (str_int code) s
                \<and> (unescaped error_body \<longrightarrow> sublist error_body s)))"
proof -
  have call: "fst (call_claude_api E w prompt) = Inr (PStr (http_error_text E code error_body))"
    using assms by (simp add: call_with_key api_attempt_raises)
  have a: "http_error_text E code error_body = ''API Error ('' @ str_int code @ ''): '' @ msg"
    if "json_loads E (Bytes error_body) = Inr (PDict kvs)"
      and "map_of kvs ''error'' = Some (PDict err)" and "map_of err ''message'' = Some (PStr msg)"
    using that by (simp add: http_error_text_def andthen_def)
  have b: "http_error_text E code error_body
             = ''HTTP Error '' @ str_int code @ '': '' @ bytes_repr error_body"
    if "json_loads E (Bytes error_body) = Inl e"
    using that by (simp add: http_error_text_def)
  have c1: "sublist (str_int code) (''API Error ('' @ str_int code @ ''): '' @ msg)"
    by (rule sublist_appendI)
  have c2: "sublist msg (''API Error ('' @ str_int code @ ''): '' @ msg)"
    using sublist_append_leftI [of msg "''API Error ('' @ str_int code @ ''): ''"] by simp
  have c3: "sublist (str_int code) (''HTTP Error '' @ str_int code @ '': '' @ bytes_repr error_body)"
    by (rule sublist_appendI)
  have c4: "sublist error_body (''HTTP Error '' @ str_int code @ '': '' @ bytes_repr error_body)"
    if "unescaped error_body"
  proof -
    have "bytes_repr error_body
            = [CHR ''b'', bytes_quote error_body] @ error_body @ [bytes_quote error_body]"
      using unescaped_repr [OF that] by (simp add: bytes_repr_def Let_def)
    then have "''HTTP Error '' @ str_int code @ '': '' @ bytes_repr error_body
        = (''HTTP Error '' @ str_int code @ '': '' @ [CHR ''b'', bytes_quote error_body])
          @ error_body @ [bytes_quote error_body]"
      by simp
    then show ?thesis
      using sublist_appendI by metis
  qed
  show ?thesis
    using call a b c1 c2 c3 c4 by (simp add: Let_def)
qed

theorem http_error_rendering_witness:
  "(let s = ''API Error ('' @ str_int 401 @ ''): '' @ ''invalid x-api-key'' in
      fst (call_claude_api (sim_env (Inl (HTTPError 401 ''Unauthorized'' (Inr error_reply_body)))) w0 ''Hello'')
        = Inr (PStr s)
      \<and> sublist (str_int 401) s \<and> sublist ''invalid x-api-key'' s)
   \<and> (let s = ''HTTP Error '' @ str_int 404 @ '': '' @ bytes_repr ''Not Found'' in
      fst (call_claude_api (sim_env (Inl (HTTPError 404 ''Not Found'' (Inr ''Not Found'')))) w0 ''Hello'')
        = Inr (PStr s)
      \<and> sublist (str_int 404) s \<and> sublist ''Not Found'' s)"
proof -
  let ?E1 = "sim_env (Inl (HTTPError 401 ''Unauthorized'' (Inr error_reply_body)))"
  let ?E2 = "sim_env (Inl (HTTPError 404 ''Not Found'' (Inr ''Not Found'')))"
  have k1: "ANTHROPIC_API_KEY ?E1 \<noteq> []" and k2: "ANTHROPIC_API_KEY ?E2 \<noteq> []"
    by (simp_all add: sim_key)
  have n1: "urlopen ?E1 (api_request ?E1 ''Hello'') 60
              = Inl (HTTPError 401 ''Unauthorized'' (Inr error_reply_body))"
    and n2: "urlopen ?E2 (api_request ?E2 ''Hello'') 60
              = Inl (HTTPError 404 ''Not Found'' (Inr ''Not Found''))"
    by (simp_all add: sim_env_def)
  have j1: "json_loads ?E1 (Bytes error_reply_body)
      = Inr (PDict [(''type'', PStr ''error''),
                    (''error'', PDict [(''type'', PStr ''authentication_error''),
                                       (''message'', PStr ''invalid x-api-key'')])])"
    by (simp add: sim_env_def sim_loads_def error_reply_body_def reply_body_def empty_reply_body_def)
  have j2: "json_loads ?E2 (Bytes ''Not Found'')
      = Inl (Exc JSONDecodeError ''Expecting value: line 1 column 1 (char 0)'')"
    by (simp add: sim_env_def sim_loads_def error_reply_body_def reply_body_def empty_reply_body_def
        test_obj_text_def)
  have u: "unescaped ''Not Found''"
    by (simp add: unescaped_def bytes_quote_def byte_repr_def)
  have m1: "map_of [(''type'', PStr ''error''),
                    (''error'', PDict [(''type'', PStr ''authentication_error''),
                                       (''message'', PStr ''invalid x-api-key'')])] ''error''
        = Some (PDict [(''type'', PStr ''authentication_error''), (''message'', PStr ''invalid x-api-key'')])"
    and m2: "map_of [(''type'', PStr ''authentication_error''), (''message'', PStr ''invalid x-api-key'')]
              ''message'' = Some (PStr ''invalid x-api-key'')"
    by simp_all
  show ?thesis
    using http_error_rendering [OF k1 n1, where w = w0, THEN conjunct1, rule_format, OF conjI [OF j1 conjI [OF m1 m2]]]
      http_error_rendering [OF k2 n2, where w = w0, THEN conjunct2, rule_format, OF j2] u
    by (simp add: Let_def)
qed

text \<open>
  Claim C6 as the specification states it asks for the raw body text in the returned
  string whenever the body is not JSON. A body with a line break is a counterexample: the
  break is written as a backslash and the letter n.
\<close>

theorem http_error_raw_body_counterexample:
  "fst (call_claude_api (sim_env (Inl (HTTPError 502 ''Bad Gateway'' (Inr html_body)))) w0 ''Hello'')
     = Inr (PStr (''HTTP Error 502: b'' @ [CHR 0x27] @ ''<html>'' @ [CHR 0x5C] @ ''n</html>'' @ [CHR 0x27]))
   \<and> \<not> sublist html_body
         (''HTTP Error 502: b'' @ [CHR 0x27] @ ''<html>'' @ [CHR 0x5C] @ ''n</html>'' @ [CHR 0x27])"
proof -
  let ?E = "sim_env (Inl (HTTPError 502 ''Bad Gateway'' (Inr html_body)))"
  have loads: "json_loads ?E (Bytes html_body) = Inl (Exc JSONDecodeError ''Expecting value: line 1 column 1 (char 0)'')"
    by (simp add: sim_env_def sim_loads_def html_body_def NL_def reply_body_def empty_reply_body_def
        error_reply_body_def test_obj_text_def)
  have repr: "bytes_repr html_body = ''b'' @ [CHR 0x27] @ ''<html>'' @ [CHR 0x5C] @ ''n</html>'' @ [CHR 0x27]"
    by (simp add: bytes_repr_def bytes_quote_def byte_repr_def html_body_def NL_def Let_def)
  have code: "str_int 502 = ''502''"
    by (simp add: str_int_def digit_char_def)
  have "call_claude_api ?E w0 ''Hello'' =
      (Inr (PStr (http_error_text ?E 502 html_body)), w0\<lparr>net_calls := net_calls w0 @ [api_request ?E ''Hello'']\<rparr>)"
    by (simp add: call_with_key sim_key) (simp add: api_attempt_def andthen_def sim_env_def)
  moreover have "http_error_text ?E 502 html_body
      = ''HTTP Error 502: b'' @ [CHR 0x27] @ ''<html>'' @ [CHR 0x5C] @ ''n</html>'' @ [CHR 0x27]"
    unfolding http_error_text_def Let_def loads repr code by simp
  moreover have "\<not> sublist html_body
         (''HTTP Error 502: b'' @ [CHR 0x27] @ ''<html>'' @ [CHR 0x5C] @ ''n</html>'' @ [CHR 0x27])"
  proof
    assume "sublist html_body (''HTTP Error 502: b'' @ [CHR 0x27] @ ''<html>'' @ [CHR 0x5C] @ ''n</html>'' @ [CHR 0x27])"
    then have "set html_body \<subseteq> set (''HTTP Error 502: b'' @ [CHR 0x27] @ ''<html>'' @ [CHR 0x5C] @ ''n</html>'' @ [CHR 0x27])"
      by (rule set_mono_sublist)
    then show False
      by (simp add: html_body_def NL_def)
  qed
  ultimately show ?thesis by simp
qed

subsection \<open>The request without context files\<close>

text \<open>
  Claim C7. With no context files (the list is absent or empty) and the credential
  set, \<^verbatim>\<open>send_to_claude\<close> hands exactly one request to \<^verbatim>\<open>urlopen\<close>; its data is the
  encoded payload of the prompt as given, and \<^verbatim>\<open>messages[0].content\<close> of that payload is
  the prompt.
\<close>

theorem no_context_payload_is_prompt:
  assumes "ANTHROPIC_API_KEY E \<noteq> []"
    and "context_files = None \<or> context_files = Some []"
  shows "net_calls (snd (send_to_claude E w prompt context_files))
           = net_calls w @ [api_request E prompt]
       \<and> req_data (api_request E prompt) = utf8_encode (json_dumps E (payload prompt))
       \<and> andthen (andthen (py_getitem (payload prompt) ''messages'') py_first)
            (\<lambda>message. py_getitem message ''content'') = Inr (PStr prompt)"
proof -
  have "full_prompt E w prompt context_files = (Inr prompt, w)"
    using assms(2) by (auto simp: full_prompt_def)
  then have "send_to_claude E w prompt context_files = call_claude_api E w prompt"
    by (simp add: send_to_claude_def)
  then have "net_calls (snd (send_to_claude E w prompt context_files))
           = net_calls w @ [api_request E prompt]"
    using assms(1) by (simp add: call_with_key)
  moreover have "req_data (api_request E prompt) = utf8_encode (json_dumps E (payload prompt))"
    by (simp add: api_request_def)
  moreover have "andthen (andthen (py_getitem (payload prompt) ''messages'') py_first)
            (\<lambda>message. py_getitem message ''content'') = Inr (PStr prompt)"
    by (simp add: payload_def andthen_def)
  ultimately show ?thesis by simp
qed

theorem no_context_payload_is_prompt_witness:
  "net_calls (snd (send_to_claude (sim_env (Inr (Inr reply_body))) w0 ''Hello'' None))
     = net_calls w0 @ [api_request (sim_env (Inr (Inr reply_body))) ''Hello'']
   \<and> net_calls (snd (send_to_claude (sim_env (Inr (Inr reply_body))) w0 ''Hello'' (Some [])))
     = net_calls w0 @ [api_request (sim_env (Inr (Inr reply_body))) ''Hello'']
   \<and> req_data (api_request (sim_env (Inr (Inr reply_body))) ''Hello'')
     = utf8_encode (json_dumps (sim_env (Inr (Inr reply_body))) (payload ''Hello''))
   \<and> andthen (andthen (py_getitem (payload ''Hello'') ''messages'') py_first)
        (\<lambda>message. py_getitem message ''content'') = Inr (PStr ''Hello'')"
proof -
  let ?E = "sim_env (Inr (Inr reply_body))"
  have 1: "ANTHROPIC_API_KEY ?E \<noteq> []"
    by (simp add: sim_key)
  have 2: "(None :: string list option) = None \<or> (None :: string list option) = Some []"
    by simp
  have 3: "Some ([] :: string list) = None \<or> Some ([] :: string list) = Some []"
    by simp
  show ?thesis
    using no_context_payload_is_prompt [OF 1 2, of w0 "''Hello''"]
      no_context_payload_is_prompt [OF 1 3, of w0 "''Hello''"]
    by blast
qed

subsection \<open>The prompt with context files\<close>

lemma read_file_returns:
  "file_read E p = Inr content \<Longrightarrow> read_file E w p = (Inr (Some content), w)"
  by (simp add: read_file_def)

lemma read_file_caught:
  "file_read E p = Inl e \<Longrightarrow> is_OSError e \<Longrightarrow>
   read_file E w p = (Inr None, print (''Error reading file: '' @ exn_str e) w)"
  by (simp add: read_file_def)

lemma read_file_raises:
  "file_read E p = Inl e \<Longrightarrow> \<not> is_OSError e \<Longrightarrow> read_file E w p = (Inl e, w)"
  by (simp add: read_file_def)

lemma add_context_step:
  assumes "\<forall>e. file_read E p = Inl e \<longrightarrow> is_OSError e"
  shows "fst (add_context E (p # rest) acc w)
           = fst (add_context E rest (acc @ shown_section E p) (snd (read_file E w p)))"
proof (cases "file_read E p")
  case (Inl e)
  then have "is_OSError e" using assms by simp
  then show ?thesis
    using Inl by (simp add: read_file_caught shown_section_def file_section_def could_not_read_def)
next
  case (Inr content)
  then show ?thesis
    by (cases content) (simp_all add: read_file_returns shown_section_def file_section_def could_not_read_def)
qed

lemma add_context_closed_form:
  "\<forall>p\<in>set files. \<forall>e. file_read E p = Inl e \<longrightarrow> is_OSError e \<Longrightarrow>
   fst (add_context E files acc w) = Inr (acc @ concat (map (shown_section E) files))"
proof (induction files arbitrary: acc w)
  case Nil
  then show ?case by simp
next
  case (Cons p rest)
  have "fst (add_context E (p # rest) acc w)
           = fst (add_context E rest (acc @ shown_section E p) (snd (read_file E w p)))"
    using Cons.prems by (intro add_context_step) simp
  also have "\<dots> = Inr ((acc @ shown_section E p) @ concat (map (shown_section E) rest))"
    using Cons.prems by (intro Cons.IH) simp
  finally show ?case by simp
qed

lemma read_file_net: "net_calls (snd (read_file E w p)) = net_calls w"
  by (simp add: read_file_def print_def split: sum.splits)

lemma add_context_net: "net_calls (snd (add_context E files acc w)) = net_calls w"
proof (induction files arbitrary: acc w)
  case Nil
  then show ?case by simp
next
  case (Cons p rest)
  obtain r w' where rf: "read_file E w p = (r, w')" by (cases "read_file E w p")
  then have "net_calls w' = net_calls w" using read_file_net [of E w p] by simp
  then show ?case
    using rf Cons.IH by (cases r) simp_all
qed

lemma full_prompt_net: "net_calls (snd (full_prompt E w prompt context_files)) = net_calls w"
  by (simp add: full_prompt_def add_context_net del: add_context.simps
      split: option.splits list.splits)

lemma sim_reads:
  "file_read (sim_env outcome) ''notes.txt'' = Inr (''first line'' @ NL @ ''second line'' @ NL)"
  "file_read (sim_env outcome) ''empty.txt'' = Inr []"
  "file_read (sim_env outcome) ''missing.txt''
     = Inl (Exc OSError (''[Errno 2] No such file or directory: '' @ quoted ''missing.txt''))"
  "file_read (sim_env outcome) ''photo.jpg''
     = Inl (Exc UnicodeDecodeError
          (quoted ''utf-8'' @ '' codec can't decode byte 0xff in position 0: invalid start byte''))"
  by (simp_all add: sim_env_def sim_files_def)

lemma add_context_same_reads:
  "\<forall>p\<in>set files. file_section p (case file_read E p of Inr c \<Rightarrow> Some c | Inl e \<Rightarrow> None)
        = file_section p (case file_read E' p of Inr c \<Rightarrow> Some c | Inl e \<Rightarrow> None)
      \<and> (\<forall>e. \<not> is_OSError e \<longrightarrow> (file_read E p = Inl e) = (file_read E' p = Inl e)) \<Longrightarrow>
   fst (add_context E files acc w) = fst (add_context E' files acc w')"
proof (induction files arbitrary: acc w w')
  case Nil
  then show ?case by simp
next
  case (Cons p rest)
  have same: "file_section p (case file_read E p of Inr c \<Rightarrow> Some c | Inl e \<Rightarrow> None)
        = file_section p (case file_read E' p of Inr c \<Rightarrow> Some c | Inl e \<Rightarrow> None)"
    and raise: "\<And>e. \<not> is_OSError e \<Longrightarrow> (file_read E p = Inl e) = (file_read E' p = Inl e)"
    using Cons.prems by simp_all
  have rest: "fst (add_context E rest a v) = fst (add_context E' rest a v')" for a v v'
    using Cons.prems by (intro Cons.IH) simp
  show ?case
  proof (cases "\<exists>e. file_read E p = Inl e \<and> \<not> is_OSError e")
    case True
    then obtain e where "file_read E p = Inl e" "\<not> is_OSError e" by blast
    moreover from this have "file_read E' p = Inl e" using raise by simp
    ultimately show ?thesis by (simp add: read_file_raises)
  next
    case False
    then have caught: "\<And>e. file_read E p = Inl e \<Longrightarrow> is_OSError e" by blast
    have caught': "\<And>e. file_read E' p = Inl e \<Longrightarrow> is_OSError e"
      using raise caught by blast
    have l: "fst (add_context E (p # rest) acc w)
        = fst (add_context E rest (acc @ file_section p (case file_read E p of Inr c \<Rightarrow> Some c | Inl e \<Rightarrow> None))
                 (snd (read_file E w p)))"
      using caught by (cases "file_read E p") (simp_all add: read_file_caught read_file_returns)
    have r: "fst (add_context E' (p # rest) acc w')
        = fst (add_context E' rest (acc @ file_section p (case file_read E' p of Inr c \<Rightarrow> Some c | Inl e \<Rightarrow> None))
                 (snd (read_file E' w' p)))"
      using caught' by (cases "file_read E' p") (simp_all add: read_file_caught read_file_returns)
    show ?thesis
      unfolding l r same by (rule rest)
  qed
qed

text \<open>
  Claim C1, as amended. For every prompt and every non-empty list of paths none of whose
  reads raises anything but an \<^verbatim>\<open>IOError\<close>, the prompt that \<^verbatim>\<open>send_to_claude\<close> builds is the
  given prompt, the line \<^verbatim>\<open>Context files:\<close>, and one section per path in the order given:
  a line break, the header \<^verbatim>\<open>--- path ---\<close>, then the content when the read returned a
  non-empty text and the marker \<^verbatim>\<open>[Could not read file]\<close> when it raised or returned the
  empty text, then a line break; nothing is raised, and with the credential set that
  text is the content of the one request sent.
\<close>

theorem context_sections_in_order:
  assumes "files \<noteq> []"
    and "\<forall>p\<in>set files. \<forall>e. file_read E p = Inl e \<longrightarrow> is_OSError e"
  shows "fst (full_prompt E w prompt (Some files))
           = Inr (prompt @ NL @ NL @ ''Context files:'' @ NL
                  @ concat (map (\<lambda>p. NL @ ''--- '' @ p @ '' ---'' @ NL
                      @ (case file_read E p of Inr (c # cs) \<Rightarrow> c # cs | _ \<Rightarrow> ''[Could not read file]'')
                      @ NL) files))
       \<and> (ANTHROPIC_API_KEY E \<noteq> [] \<longrightarrow>
            (\<exists>text. fst (full_prompt E w prompt (Some files)) = Inr text
               \<and> net_calls (snd (send_to_claude E w prompt (Some files)))
                   = net_calls w @ [api_request E text]))"
proof -
  obtain f fs where files: "files = f # fs"
    using assms(1) by (cases files) auto
  let ?text = "prompt @ NL @ NL @ ''Context files:'' @ NL @ concat (map (shown_section E) files)"
  have built: "fst (full_prompt E w prompt (Some files)) = Inr ?text"
    using add_context_closed_form [OF assms(2), of "prompt @ NL @ NL @ ''Context files:'' @ NL" w]
    by (simp add: full_prompt_def files)
  have sections: "shown_section E = (\<lambda>p. NL @ ''--- '' @ p @ '' ---'' @ NL
                      @ (case file_read E p of Inr (c # cs) \<Rightarrow> c # cs | _ \<Rightarrow> ''[Could not read file]'')
                      @ NL)"
    by (rule ext) (simp add: shown_section_def)
  have sent: "net_calls (snd (send_to_claude E w prompt (Some files))) = net_calls w @ [api_request E ?text]"
    if key: "ANTHROPIC_API_KEY E \<noteq> []"
  proof -
    obtain w' where fp: "full_prompt E w prompt (Some files) = (Inr ?text, w')"
      using built by (cases "full_prompt E w prompt (Some files)") auto
    then have "net_calls w' = net_calls w"
      using full_prompt_net [of E w prompt "Some files"] by simp
    then show ?thesis
      using fp key by (simp add: send_to_claude_def call_with_key)
  qed
  show ?thesis
    using built sent unfolding sections by auto
qed

theorem context_sections_in_order_witness:
  "fst (full_prompt (sim_env (Inr (Inr reply_body))) w0 ''Compare''
          (Some [''notes.txt'', ''missing.txt'', ''empty.txt'']))
     = Inr (''Compare'' @ NL @ NL @ ''Context files:'' @ NL
            @ NL @ ''--- notes.txt ---'' @ NL @ ''first line'' @ NL @ ''second line'' @ NL @ NL
            @ NL @ ''--- missing.txt ---'' @ NL @ ''[Could not read file]'' @ NL
            @ NL @ ''--- empty.txt ---'' @ NL @ ''[Could not read file]'' @ NL)
   \<and> net_calls (snd (send_to_claude (sim_env (Inr (Inr reply_body))) w0 ''Compare''
          (Some [''notes.txt'', ''missing.txt'', ''empty.txt''])))
     = net_calls w0 @ [api_request (sim_env (Inr (Inr reply_body)))
           (''Compare'' @ NL @ NL @ ''Context files:'' @ NL
            @ NL @ ''--- notes.txt ---'' @ NL @ ''first line'' @ NL @ ''second line'' @ NL @ NL
            @ NL @ ''--- missing.txt ---'' @ NL @ ''[Could not read file]'' @ NL
            @ NL @ ''--- empty.txt ---'' @ NL @ ''[Could not read file]'' @ NL)]"
proof -
  let ?E = "sim_env (Inr (Inr reply_body))"
  let ?files = "[''notes.txt'', ''missing.txt'', ''empty.txt'']"
  have 1: "?files \<noteq> []" by simp
  have 2: "\<forall>p\<in>set ?files. \<forall>e. file_read ?E p = Inl e \<longrightarrow> is_OSError e"
    by (auto simp: sim_reads)
  have 3: "NL \<noteq> []" by (simp add: NL_def)
  have 4: "ANTHROPIC_API_KEY ?E \<noteq> []" by (simp add: sim_key)
  have a: "fst (full_prompt ?E w0 ''Compare'' (Some ?files))
     = Inr (''Compare'' @ NL @ NL @ ''Context files:'' @ NL
            @ NL @ ''--- notes.txt ---'' @ NL @ ''first line'' @ NL @ ''second line'' @ NL @ NL
            @ NL @ ''--- missing.txt ---'' @ NL @ ''[Could not read file]'' @ NL
            @ NL @ ''--- empty.txt ---'' @ NL @ ''[Could not read file]'' @ NL)"
    using context_sections_in_order [OF 1 2, of w0 "''Compare''", THEN conjunct1] 3
    by (simp add: sim_reads split: list.splits)
  obtain built where "fst (full_prompt ?E w0 ''Compare'' (Some ?files)) = Inr built"
    and "net_calls (snd (send_to_claude ?E w0 ''Compare'' (Some ?files)))
           = net_calls w0 @ [api_request ?E built]"
    using context_sections_in_order [OF 1 2, of w0 "''Compare''", THEN conjunct2, rule_format, OF 4]
    by blast
  then show ?thesis
    using a by simp
qed

text \<open>
  Claim C1 as the specification states it gives a file that was read the section with
  its content. An empty file is a counterexample: its read succeeds, and its section
  carries the marker, not the (empty) content.
\<close>

theorem empty_file_section_counterexample:
  "file_read (sim_env (Inr (Inr reply_body))) ''empty.txt'' = Inr []
   \<and> fst (full_prompt (sim_env (Inr (Inr reply_body))) w0 ''Summarise'' (Some [''empty.txt'']))
       = Inr (''Summarise'' @ NL @ NL @ ''Context files:'' @ NL
              @ NL @ ''--- empty.txt ---'' @ NL @ ''[Could not read file]'' @ NL)
   \<and> claimed_section (sim_env (Inr (Inr reply_body))) ''empty.txt''
       = NL @ ''--- empty.txt ---'' @ NL @ NL
   \<and> \<not> sublist (claimed_section (sim_env (Inr (Inr reply_body))) ''empty.txt'')
         (''Summarise'' @ NL @ NL @ ''Context files:'' @ NL
              @ NL @ ''--- empty.txt ---'' @ NL @ ''[Could not read file]'' @ NL)"
proof -
  let ?E = "sim_env (Inr (Inr reply_body))"
  have a: "fst (full_prompt ?E w0 ''Summarise'' (Some [''empty.txt'']))
       = Inr (''Summarise'' @ NL @ NL @ ''Context files:'' @ NL
              @ NL @ ''--- empty.txt ---'' @ NL @ ''[Could not read file]'' @ NL)"
    by (simp add: full_prompt_def read_file_returns sim_reads file_section_def could_not_read_def)
  have b: "claimed_section ?E ''empty.txt'' = NL @ ''--- empty.txt ---'' @ NL @ NL"
    by (simp add: claimed_section_def sim_reads)
  have c: "\<not> sublist (NL @ ''--- empty.txt ---'' @ NL @ NL)
         (''Summarise'' @ NL @ NL @ ''Context files:'' @ NL
              @ NL @ ''--- empty.txt ---'' @ NL @ ''[Could not read file]'' @ NL)"
    unfolding NL_def by (simp add: sublist_Cons_right)
  show ?thesis
    using a b c by (simp add: sim_reads)
qed



subsection \<open>A read that raises another exception\<close>

text \<open>
  Claim C4 fails on the code. \<^verbatim>\<open>read_file\<close> catches \<^verbatim>\<open>IOError\<close> only, so the
  \<^verbatim>\<open>UnicodeDecodeError\<close> of a file that is not text leaves \<^verbatim>\<open>send_to_claude\<close>; the
  single-shot run and the interactive session both end with it, with exit status 1.
\<close>

theorem undecodable_file_raises:
  "fst (send_to_claude (sim_env (Inr (Inr reply_body))) w0 ''Describe this file'' (Some [''photo.jpg'']))
     = Inl (Exc UnicodeDecodeError
          (quoted ''utf-8'' @ '' codec can't decode byte 0xff in position 0: invalid start byte''))
   \<and> exit_status (fst (main (sim_env (Inr (Inr reply_body))) w0
         [''claude_powerbook.py'', ''Describe this file'', ''photo.jpg''] [])) = 1
   \<and> exit_status (fst (main (sim_env (Inr (Inr reply_body))) w0
         [''claude_powerbook.py''] [Line ''explain photo.jpg'', Line ''quit''])) = 1"
proof -
  let ?E = "sim_env (Inr (Inr reply_body))"
  let ?e = "Exc UnicodeDecodeError
          (quoted ''utf-8'' @ '' codec can't decode byte 0xff in position 0: invalid start byte'')"
  have raise: "send_to_claude ?E w p (Some [''photo.jpg'']) = (Inl ?e, w)" for w p
    by (simp add: send_to_claude_def full_prompt_def read_file_raises sim_reads)
  have one: "exit_status (fst (main ?E w0 [''claude_powerbook.py'', ''Describe this file'', ''photo.jpg''] [])) = 1"
    by (simp add: main_def single_shot_def sim_key raise)
  have parts: "split_ws 2 ''explain photo.jpg'' = [''explain'', ''photo.jpg'']"
    by (simp add: numeral_2_eq_2 py_isspace_def Let_def)
  have "strip ''explain photo.jpg'' = ''explain photo.jpg''"
    by (simp add: strip_def py_isspace_def Let_def)
  then have two: "exit_status (fst (main ?E w0 [''claude_powerbook.py'']
                    [Line ''explain photo.jpg'', Line ''quit''])) = 1"
    by (simp add: main_def interactive_mode_def sim_key Let_def run_command_def parts
        ask_claude_def raise split: prod.splits)
  show ?thesis
    using raise one two by simp
qed

subsection \<open>Exit status\<close>

text \<open>
  What a function returns does not depend on the output and the requests recorded so
  far.
\<close>

lemma call_claude_api_fst:
  "fst (call_claude_api E w prompt) = fst (call_claude_api E w' prompt)"
  by (simp add: call_claude_api_def Let_def split: sum.splits)

lemma full_prompt_fst:
  "fst (full_prompt E w prompt context_files) = fst (full_prompt E w' prompt context_files)"
proof -
  have "fst (add_context E files a w) = fst (add_context E files a w')" for files a
    by (rule add_context_same_reads) simp
  then show ?thesis
    by (simp add: full_prompt_def del: add_context.simps split: option.splits list.splits)
qed

lemma send_to_claude_fst:
  "fst (send_to_claude E w prompt context_files) = fst (send_to_claude E w' prompt context_files)"
proof -
  obtain r v where a: "full_prompt E w prompt context_files = (r, v)"
    by (cases "full_prompt E w prompt context_files")
  obtain r' v' where b: "full_prompt E w' prompt context_files = (r', v')"
    by (cases "full_prompt E w' prompt context_files")
  have "r = r'"
    using full_prompt_fst [of E w prompt context_files w'] a b by simp
  then show ?thesis
    using a b call_claude_api_fst [of E v _ v']
    by (auto simp: send_to_claude_def split: sum.splits)
qed

lemma ask_claude_fst:
  "fst (ask_claude E w notice prompt context_files) = fst (ask_claude E w' notice prompt context_files)"
proof -
  obtain r v where a: "send_to_claude E (print (NL @ notice) w) prompt context_files = (r, v)"
    by (cases "send_to_claude E (print (NL @ notice) w) prompt context_files")
  obtain r' v' where b: "send_to_claude E (print (NL @ notice) w') prompt context_files = (r', v')"
    by (cases "send_to_claude E (print (NL @ notice) w') prompt context_files")
  have "r = r'"
    using send_to_claude_fst [of E "print (NL @ notice) w" prompt context_files "print (NL @ notice) w'"] a b
    by simp
  then show ?thesis
    using a b by (auto simp: ask_claude_def split: sum.splits)
qed

lemma run_command_fst:
  "fst (run_command E w line) = fst (run_command E w' line)"
  using ask_claude_fst [of E w _ _ _ w']
  by (simp add: run_command_def Let_def)

lemma command_loop_fst:
  "fst (command_loop E events w) = fst (command_loop E events w')"
proof (induction events arbitrary: w w')
  case Nil
  then show ?case by simp
next
  case (Cons ev rest)
  show ?case
  proof (cases ev)
    case Interrupt
    then show ?thesis
      using Cons.IH [of "print interrupt_hint (show_prompt w)" "print interrupt_hint (show_prompt w')"]
      by simp
  next
    case (Line l)
    obtain r v where a: "run_command E (show_prompt w) (strip l) = (r, v)"
      by (cases "run_command E (show_prompt w) (strip l)")
    obtain r' v' where b: "run_command E (show_prompt w') (strip l) = (r', v')"
      by (cases "run_command E (show_prompt w') (strip l)")
    have same: "r' = r"
      using run_command_fst [of E "show_prompt w" "strip l" "show_prompt w'"] a b by simp
    show ?thesis
    proof (cases r)
      case (Inr u)
      then show ?thesis
        using Line a b same Cons.IH [of "show_prompt w" "show_prompt w'"] Cons.IH [of v v']
        by (simp add: Let_def)
    next
      case (Inl e)
      then show ?thesis
        using Line a b same Cons.IH [of "show_prompt w" "show_prompt w'"]
          Cons.IH [of "print interrupt_hint v" "print interrupt_hint v'"]
        by (simp add: Let_def)
    qed
  qed
qed

lemma interactive_exit:
  assumes "ANTHROPIC_API_KEY E = [] \<or> fst (command_loop E events w') = Inr ()"
  shows "fst (interactive_mode E w events) = Inr ()"
proof (cases "ANTHROPIC_API_KEY E = []")
  case True
  then show ?thesis
    by (simp add: interactive_mode_def Let_def split: prod.splits)
next
  case False
  obtain ssl_ok w1 where ssl: "check_ssl E (banner w) = (ssl_ok, w1)"
    by (cases "check_ssl E (banner w)")
  define w2 where "w2 = command_help (if \<not> ssl_ok then ssl_warning w1 else w1)"
  have "fst (command_loop E events w2) = Inr ()"
    using assms False command_loop_fst [of E events w2 w'] by simp
  then obtain w3 where "command_loop E events w2 = (Inr (), w3)"
    by (cases "command_loop E events w2") simp
  then show ?thesis
    using False ssl unfolding w2_def
    by (simp add: interactive_mode_def Let_def)
qed

lemma command_loop_ends_normally:
  assumes "\<And>w prompt context_files e. fst (send_to_claude E w prompt context_files) = Inl e \<Longrightarrow>
             is_class KeyboardInterrupt e \<or> is_class EOFError e"
  shows "fst (command_loop E events w) = Inr ()"
proof (induction events arbitrary: w)
  case Nil
  then show ?case by simp
next
  case (Cons ev rest)
  have ask: "is_class KeyboardInterrupt e \<or> is_class EOFError e"
    if "fst (ask_claude E v notice prompt context_files) = Inl e" for v notice prompt context_files e
  proof -
    obtain r v' where s: "send_to_claude E (print (NL @ notice) v) prompt context_files = (r, v')"
      by (cases "send_to_claude E (print (NL @ notice) v) prompt context_files")
    then have "r = Inl e"
      using that by (auto simp: ask_claude_def split: sum.splits)
    then show ?thesis
      using assms [of "print (NL @ notice) v" prompt context_files e] s by simp
  qed
  have cmd: "is_class KeyboardInterrupt e \<or> is_class EOFError e"
    if "fst (run_command E v line) = Inl e" for v line e
    using that ask by (auto simp: run_command_def Let_def split: if_splits)
  show ?case
  proof (cases ev)
    case Interrupt
    then show ?thesis using Cons.IH by simp
  next
    case (Line l)
    obtain r v where a: "run_command E (show_prompt w) (strip l) = (r, v)"
      by (cases "run_command E (show_prompt w) (strip l)")
    show ?thesis
    proof (cases r)
      case (Inr u)
      then show ?thesis
        using Line a Cons.IH by (simp add: Let_def)
    next
      case (Inl e)
      then have "is_class KeyboardInterrupt e \<or> is_class EOFError e"
        using cmd [of "show_prompt w" "strip l" e] a by simp
      then show ?thesis
        using Line a Inl Cons.IH by (auto simp: Let_def)
    qed
  qed
qed

lemma full_prompt_returns:
  assumes "\<forall>p e. file_read E p = Inl e \<longrightarrow> is_OSError e"
  shows "\<exists>text. fst (full_prompt E w prompt context_files) = Inr text"
proof -
  have "\<exists>text. fst (add_context E files a w) = Inr text" for files a
    using add_context_closed_form [of files E a w] assms by simp
  then show ?thesis
    by (simp add: full_prompt_def del: add_context.simps split: option.splits list.splits)
qed

lemma no_files_env_never_raises:
  "fst (send_to_claude no_files_env w prompt context_files) \<noteq> Inl e"
proof -
  have key: "ANTHROPIC_API_KEY no_files_env \<noteq> []"
    by (simp add: no_files_env_def ANTHROPIC_API_KEY_def sim_env_def)
  have reads: "\<forall>p e. file_read no_files_env p = Inl e \<longrightarrow> is_OSError e"
    by (auto simp: no_files_env_def)
  have net: "api_attempt no_files_env req = Inr (PStr ''Hello!'')" for req
    by (simp add: api_attempt_def andthen_def extract_text_def no_files_env_def sim_env_def
        sim_loads_def)
  obtain built where "fst (full_prompt no_files_env w prompt context_files) = Inr built"
    using full_prompt_returns [OF reads] by blast
  then obtain v where "full_prompt no_files_env w prompt context_files = (Inr built, v)"
    by (cases "full_prompt no_files_env w prompt context_files") simp
  then show ?thesis
    using key net by (simp add: send_to_claude_def call_with_key)
qed

text \<open>
  Claim C8. Invoked with one or more arguments, the first of which is not the reserved
  flag \<^verbatim>\<open>--check-ssl\<close>, and with no credential, \<^verbatim>\<open>main\<close> prints the error and leaves by
  \<^verbatim>\<open>sys.exit(1)\<close>: the exit status is 1. Invoked with no argument, the exit status is 0
  whenever the credential is missing or the loop is left by \<^verbatim>\<open>quit\<close> or at the end of
  the input; and the loop is left that way on every input unless a call of
  \<^verbatim>\<open>send_to_claude\<close> raises an exception other than the two the loop catches.
\<close>

theorem exit_statuses:
  "(2 \<le> length argv \<and> argv ! 1 \<noteq> ''--check-ssl'' \<and> ANTHROPIC_API_KEY E = [] \<longrightarrow>
      main E w argv events = (Inl (SystemExit 1), print ''ERROR: ANTHROPIC_API_KEY not set'' w)
      \<and> exit_status (fst (main E w argv events)) = 1)
   \<and> (length argv = 1
        \<and> (ANTHROPIC_API_KEY E = [] \<or> fst (command_loop E events w') = Inr ()) \<longrightarrow>
      exit_status (fst (main E w argv events)) = 0)
   \<and> (length argv = 1
        \<and> (\<forall>v prompt context_files e. fst (send_to_claude E v prompt context_files) = Inl e \<longrightarrow>
              is_class KeyboardInterrupt e \<or> is_class EOFError e) \<longrightarrow>
      exit_status (fst (main E w argv events)) = 0)"
proof -
  have single: "main E w argv events = (Inl (SystemExit 1), print ''ERROR: ANTHROPIC_API_KEY not set'' w)"
    if "2 \<le> length argv" "argv ! 1 \<noteq> ''--check-ssl''" "ANTHROPIC_API_KEY E = []"
    using that by (simp add: main_def single_shot_def)
  have inter: "exit_status (fst (main E w argv events)) = 0"
    if "length argv = 1" "ANTHROPIC_API_KEY E = [] \<or> fst (command_loop E events v) = Inr ()" for v
    using that interactive_exit [of E events v w] by (simp add: main_def)
  have calm: "exit_status (fst (main E w argv events)) = 0"
    if "length argv = 1"
      and "\<forall>v prompt context_files e. fst (send_to_claude E v prompt context_files) = Inl e \<longrightarrow>
              is_class KeyboardInterrupt e \<or> is_class EOFError e"
  proof -
    have "fst (command_loop E events w) = Inr ()"
      using that(2) by (intro command_loop_ends_normally) blast
    then show ?thesis
      using inter [OF that(1), of w] by simp
  qed
  show ?thesis
    using single inter [of w'] calm by auto
qed

theorem exit_statuses_witness:
  "main ((sim_env (Inr (Inr reply_body)))\<lparr>environ := Map.empty\<rparr>) w0
       [''claude_powerbook.py'', ''What is this?'', ''notes.txt''] []
     = (Inl (SystemExit 1), print ''ERROR: ANTHROPIC_API_KEY not set'' w0)
   \<and> exit_status (fst (main ((sim_env (Inr (Inr reply_body)))\<lparr>environ := Map.empty\<rparr>) w0
       [''claude_powerbook.py'', ''What is this?'', ''notes.txt''] [])) = 1
   \<and> exit_status (fst (main (sim_env (Inr (Inr reply_body))) w0 [''claude_powerbook.py'']
       [Line ''ask hello'', Interrupt, Line ''quit''])) = 0
   \<and> exit_status (fst (main no_files_env w0 [''claude_powerbook.py'']
       [Line ''explain notes.txt'', Line ''bogus'', Interrupt])) = 0"
proof -
  let ?U = "(sim_env (Inr (Inr reply_body)))\<lparr>environ := Map.empty\<rparr>"
  let ?E = "sim_env (Inr (Inr reply_body))"
  let ?argv = "[''claude_powerbook.py'', ''What is this?'', ''notes.txt'']"
  have 1: "2 \<le> length ?argv \<and> ?argv ! 1 \<noteq> ''--check-ssl'' \<and> ANTHROPIC_API_KEY ?U = []"
    by (simp add: ANTHROPIC_API_KEY_def)
  have parts: "split_ws 2 ''ask hello'' = [''ask'', ''hello'']"
    by (simp add: numeral_2_eq_2 py_isspace_def Let_def)
  have strips: "strip ''ask hello'' = ''ask hello''" "strip ''quit'' = ''quit''"
    by (simp_all add: strip_def py_isspace_def Let_def)
  have "api_attempt ?E req = Inr (PStr ''Hello!'')" for req
    by (simp add: api_attempt_def andthen_def extract_text_def sim_env_def sim_loads_def)
  then have ask: "fst (ask_claude ?E v ''Thinking...'' ''hello'' None) = Inr ()" for v
    by (simp add: ask_claude_def send_to_claude_def full_prompt_def call_with_key sim_key)
  have loop: "fst (command_loop ?E [Line ''ask hello'', Interrupt, Line ''quit''] w0) = Inr ()"
  proof -
    obtain v where "run_command ?E (show_prompt w0) ''ask hello'' = (Inr (), v)"
      using ask [of "show_prompt w0"]
      by (cases "ask_claude ?E (show_prompt w0) ''Thinking...'' ''hello'' None")
        (simp add: run_command_def parts Let_def)
    then show ?thesis
      by (simp add: strips Let_def)
  qed
  have 2: "length [''claude_powerbook.py''] = 1
        \<and> (ANTHROPIC_API_KEY ?E = [] \<or> fst (command_loop ?E [Line ''ask hello'', Interrupt, Line ''quit''] w0) = Inr ())"
  proof -
    have "length [''claude_powerbook.py''] = 1" by simp
    then show ?thesis using loop by (intro conjI disjI2)
  qed
  have 3: "length [''claude_powerbook.py''] = 1
        \<and> (\<forall>v prompt context_files e.
              fst (send_to_claude no_files_env v prompt context_files) = Inl e \<longrightarrow>
              is_class KeyboardInterrupt e \<or> is_class EOFError e)"
    using no_files_env_never_raises by simp
  show ?thesis
    using exit_statuses [where argv = ?argv and E = ?U and w = w0 and events = "[]",
        THEN conjunct1, rule_format, OF 1]
      exit_statuses [where argv = "[''claude_powerbook.py'']" and E = ?E and w = w0
          and events = "[Line ''ask hello'', Interrupt, Line ''quit'']" and w' = w0,
        THEN conjunct2, THEN conjunct1, rule_format, OF 2]
      exit_statuses [where argv = "[''claude_powerbook.py'']" and E = no_files_env and w = w0
          and events = "[Line ''explain notes.txt'', Line ''bogus'', Interrupt]",
        THEN conjunct2, THEN conjunct2, rule_format, OF 3]
    by simp
qed

section \<open>Properties of the diagnostics\<close>

lemma test_obj_equals_itself: "py_eq test_obj test_obj"
  by (simp add: test_obj_def)

text \<open>
  Claim C9. With the \<^verbatim>\<open>json\<close> module importable, \<^verbatim>\<open>check_json\<close> encodes the fixed object
  \<^verbatim>\<open>{"test": "value", "number": 42}\<close>, decodes the text, and returns \<^verbatim>\<open>True\<close> exactly when
  the decoder returns a value equal to the object; it returns \<^verbatim>\<open>False\<close> exactly when
  the decoder returns an unequal value (or raises an \<^verbatim>\<open>ImportError\<close>); and it returns
  \<^verbatim>\<open>True\<close> when decoding gives the object back.
\<close>

theorem json_check_passes_iff_roundtrip:
  assumes "json_importable E"
  shows "(fst (check_json E w) = Inr True
            \<longleftrightarrow> (\<exists>decoded. json_loads E (Str (json_dumps E test_obj)) = Inr decoded
                    \<and> py_eq decoded test_obj))
       \<and> (fst (check_json E w) = Inr False
            \<longleftrightarrow> (\<exists>decoded. json_loads E (Str (json_dumps E test_obj)) = Inr decoded
                    \<and> \<not> py_eq decoded test_obj)
              \<or> (\<exists>e. json_loads E (Str (json_dumps E test_obj)) = Inl e \<and> is_class ImportError e))
       \<and> (json_loads E (Str (json_dumps E test_obj)) = Inr test_obj
            \<longrightarrow> fst (check_json E w) = Inr True)"
proof (cases "json_loads E (Str (json_dumps E test_obj))")
  case (Inl e)
  then show ?thesis
    using assms by (simp add: check_json_def Let_def)
next
  case (Inr decoded)
  then show ?thesis
    using assms test_obj_equals_itself by (auto simp: check_json_def Let_def)
qed

theorem json_check_passes_iff_roundtrip_witness:
  "fst (check_json (sim_env (Inr (Inr reply_body))) w0) = Inr True"
proof -
  let ?E = "sim_env (Inr (Inr reply_body))"
  have 1: "json_importable ?E" by (simp add: sim_env_def)
  have 2: "json_loads ?E (Str (json_dumps ?E test_obj)) = Inr test_obj"
    by (simp add: sim_env_def sim_dumps_def sim_loads_def test_obj_text_def reply_body_def
        empty_reply_body_def error_reply_body_def)
  show ?thesis
    using json_check_passes_iff_roundtrip [OF 1, of w0, THEN conjunct2, THEN conjunct2] 2
    by simp
qed

end
